theory Spec2Isabelle
  imports Complex_Main
begin

section \<open>Python values and exceptions\<close>

text \<open>
  The fields of the input tuples of \<^verbatim>\<open>ontor.py\<close> are untyped Python values. The
  code only ever tests them for truthiness, compares them with string literals, uses them
  as dictionary keys or hands them on to the ontology library. Floats are identified with
  the rationals they denote (no NaN, no infinities): only their truthiness and their
  order matter here.
\<close>

datatype pyval = PNone | PBool bool | PInt int | PFloat rat | PStr string

fun truthy :: "pyval \<Rightarrow> bool" where
  "truthy PNone = False"
| "truthy (PBool b) = b"
| "truthy (PInt i) = (i \<noteq> 0)"
| "truthy (PFloat r) = (r \<noteq> 0)"
| "truthy (PStr s) = (s \<noteq> [])"

text \<open>Every exception and process exit the modelled code can end in.\<close>

datatype error =
    UnboundLocalError
  | KeyError
  | AssertionError
  | IndexError
  | TypeError
  | AttributeError
  | ValueError
  | EOFError
  | LoadError
  | SystemExit int

section \<open>The ontology library, as far as the editor uses it\<close>

text \<open>
  \<^verbatim>\<open>owlready2\<close> is not part of the repository. Its objects are modelled as plain
  data: an entity is the top class, the bottom class or a named entity of the ontology;
  the entries of a class's \<^verbatim>\<open>is_a\<close> and \<^verbatim>\<open>equivalent_to\<close> lists are references to
  classes, restrictions, or negations of these.
\<close>

datatype entity = Thing | Nothing | Named string

datatype ekind = KClass | KObjectProperty | KDataProperty | KIndividual

text \<open>The values of the table \<^verbatim>\<open>OntoEditor._dp_range_types\<close>.\<close>

datatype prim = TBool | TFloat | TInt | TStr | TDate | TTime | TDatetime

datatype facet = MinExclusive | MinInclusive | MaxInclusive | MaxExclusive

datatype dtype = Primitive prim | ConstrainedDatatype prim "(facet \<times> pyval) list"

datatype filler = FEntity entity | FDatatype dtype | FLiteral pyval

datatype prop_expr = Prop entity | Inverse "entity option"

datatype construct =
    ClassRef entity
  | Restriction prop_expr string "pyval option" "filler option"
  | NotC construct

record ontology =
  declared :: "(string \<times> ekind) list"
  is_a :: "string \<Rightarrow> construct list"
  equivalent_to :: "string \<Rightarrow> construct list"
  unsat :: "entity list"

text \<open>
  \<^verbatim>\<open>self.onto[name]\<close> resolves a name to the entity of that name, or to \<^verbatim>\<open>None\<close>;
  \<^verbatim>\<open>self.onto.classes()\<close> lists the classes; \<^verbatim>\<open>inconsistent_classes()\<close> lists the
  classes the ontology records as equivalent to the bottom class (field \<open>unsat\<close>).
\<close>

definition onto_get :: "ontology \<Rightarrow> string \<Rightarrow> entity option" where
  "onto_get ont name =
     (case map_of (declared ont) name of None \<Rightarrow> None | Some k \<Rightarrow> Some (Named name))"

definition classes :: "ontology \<Rightarrow> entity list" where
  "classes ont = map (\<lambda>d. Named (fst d)) (filter (\<lambda>d. snd d = KClass) (declared ont))"

section \<open>The editor and its environment\<close>

datatype log_entry = Info string | Warning string | Error string

text \<open>The two reasoner entry points, with the \<^verbatim>\<open>debug\<close> level Pellet is given.\<close>

datatype backend = Hermit | Pellet nat

text \<open>A crashed reasoner run: \<^verbatim>\<open>repr(exc)\<close> and \<^verbatim>\<open>traceback.format_exc()\<close>.\<close>

datatype crash = Crash (exc_repr: string) (traceback: string)

text \<open>
  The state of an \<^verbatim>\<open>OntoEditor\<close> and of what it acts on: the live ontology
  \<^verbatim>\<open>self.onto\<close>, the ontology file (\<^verbatim>\<open>self.path\<close> and \<^verbatim>\<open>self.filename\<close> are taken to
  name the same file), the log, standard output and the pending lines of standard input.
  Three fields only observe: \<open>saves\<close> counts the calls of \<^verbatim>\<open>save\<close>, \<open>calls\<close> lists the
  entries into \<^verbatim>\<open>reasoning\<close> (reasoner, save, debug), \<open>runs\<close> the reasoner invocations.
  Log messages are kept by their fixed text, without the formatted payload; the output of
  the reasoner that \<^verbatim>\<open>_redirect_to_log\<close> copies to the log is left out.
\<close>

record editor =
  onto :: ontology
  persisted :: "ontology option"
  logged :: "log_entry list"
  stdout :: "string list"
  stdin :: "string list"
  saves :: nat
  calls :: "(string \<times> bool \<times> bool) list"
  runs :: "backend list"

definition log_info :: "string \<Rightarrow> editor \<Rightarrow> editor" where
  "log_info msg ed = ed\<lparr>logged := logged ed @ [Info msg]\<rparr>"

definition log_warning :: "string \<Rightarrow> editor \<Rightarrow> editor" where
  "log_warning msg ed = ed\<lparr>logged := logged ed @ [Warning msg]\<rparr>"

definition log_error :: "string \<Rightarrow> editor \<Rightarrow> editor" where
  "log_error msg ed = ed\<lparr>logged := logged ed @ [Error msg]\<rparr>"

definition print :: "string \<Rightarrow> editor \<Rightarrow> editor" where
  "print msg ed = ed\<lparr>stdout := stdout ed @ [msg]\<rparr>"

definition save :: "ontology \<Rightarrow> editor \<Rightarrow> editor" where
  "save ont ed = ed\<lparr>persisted := Some ont, saves := saves ed + 1\<rparr>"

text \<open>\<^verbatim>\<open>_reload_from_file\<close>: a failed load ends the process with exit code 1.\<close>

definition reload_from_file :: "editor \<Rightarrow> error option \<times> editor" where
  "reload_from_file ed =
     (case persisted ed of
        Some ont \<Rightarrow> (None, log_info ''successfully reloaded ontology from file'' (ed\<lparr>onto := ont\<rparr>))
      | None \<Rightarrow> (Some (SystemExit 1), log_info ''ontology file did not exist'' ed))"

section \<open>Text utilities\<close>

definition NL :: char where
  "NL = CHR 0x0A"

text \<open>\<^verbatim>\<open>str.split(sep)\<close> for a separator of one character.\<close>

fun split_on :: "char \<Rightarrow> string \<Rightarrow> string list" where
  "split_on sep [] = [[]]"
| "split_on sep (c # cs) =
     (if c = sep then [] # split_on sep cs
      else (case split_on sep cs of [] \<Rightarrow> [[c]] | w # ws \<Rightarrow> (c # w) # ws))"

text \<open>The ASCII characters \<^verbatim>\<open>str.split()\<close> treats as whitespace.\<close>

definition is_space :: "char \<Rightarrow> bool" where
  "is_space c = (c \<in> set [CHR 0x20, CHR 0x09, CHR 0x0A, CHR 0x0B, CHR 0x0C, CHR 0x0D,
                           CHR 0x1C, CHR 0x1D, CHR 0x1E, CHR 0x1F])"

text \<open>\<^verbatim>\<open>str.split()\<close>: the maximal runs of non-whitespace; \<open>cur\<close> is the run being read.\<close>

fun split_ws_from :: "string \<Rightarrow> string \<Rightarrow> string list" where
  "split_ws_from cur [] = (if cur = [] then [] else [cur])"
| "split_ws_from cur (c # cs) =
     (if is_space c then (if cur = [] then split_ws_from [] cs else cur # split_ws_from [] cs)
      else split_ws_from (cur @ [c]) cs)"

definition split_ws :: "string \<Rightarrow> string list" where
  "split_ws s = split_ws_from [] s"

text \<open>The text before and after the first occurrence of \<open>pat\<close>.\<close>

fun find_sub :: "string \<Rightarrow> string \<Rightarrow> (string \<times> string) option" where
  "find_sub pat [] = (if pat = [] then Some ([], []) else None)"
| "find_sub pat (c # cs) =
     (if take (length pat) (c # cs) = pat then Some ([], drop (length pat) (c # cs))
      else map_option (\<lambda>(b, a). (c # b, a)) (find_sub pat cs))"

fun join_lines :: "string list \<Rightarrow> string" where
  "join_lines [] = []"
| "join_lines [x] = x"
| "join_lines (x # y # ys) = x @ [NL] @ join_lines (y # ys)"

section \<open>Reading Pellet's explanation\<close>

definition marker :: string where
  "marker = ''Explanation(s): '' @ [NL]"

text \<open>
  \<^verbatim>\<open>re.findall\<close> for the pattern of \<^verbatim>\<open>_extract_pellet_explanation\<close>: the marker line,
  then the shortest text that a blank line follows (with \<^verbatim>\<open>DOTALL\<close> the dot matches
  a newline). The scan goes on after each match; where no blank line follows a marker,
  none follows a later one either.
\<close>

function findall_explanations :: "string \<Rightarrow> string list" where
  "findall_explanations text =
     (case find_sub marker text of
        None \<Rightarrow> []
      | Some (pre, rest) \<Rightarrow>
          (case find_sub [NL, NL] rest of
             None \<Rightarrow> []
           | Some (expl, rest') \<Rightarrow> expl # findall_explanations rest'))"
  by pat_completeness auto
termination
proof -
  have shorter: "find_sub pat s = Some (b, a) \<Longrightarrow> length a + length pat \<le> length s"
    for pat s b a
  proof (induction s arbitrary: b a)
    case Nil
    then show ?case by (auto split: if_splits)
  next
    case (Cons c cs)
    show ?case
    proof (cases "take (length pat) (c # cs) = pat")
      case True
      from arg_cong [OF True, of length] have "length pat \<le> length (c # cs)"
        by simp
      with True Cons.prems show ?thesis
        by auto
    next
      case False
      with Cons show ?thesis
        by (auto split: if_splits)
    qed
  qed
  show ?thesis
    by (relation "measure length") (auto dest!: shorter simp: marker_def)
qed

text \<open>
  \<^verbatim>\<open>_extract_pellet_explanation\<close>. The set of blocks is a list without duplicates (the
  order of a Python set is arbitrary).
\<close>

definition extract_pellet_explanation :: "string \<Rightarrow> string list \<times> string list list list" where
  "extract_pellet_explanation pellet_traceback =
     (let res = remdups (findall_explanations pellet_traceback)
      in (res,
          if res \<noteq> [] then
            (let expls = map (\<lambda>expl. map (drop 5) (split_on NL expl)) res
             in map (\<lambda>block. map split_ws block) expls)
          else []))"

text \<open>
  The comprehension of \<^verbatim>\<open>_analyze_pellet_results\<close>: \<^verbatim>\<open>ax[0]\<close> raises on a line
  without a token; a token counts when it resolves to one of the ontology's classes.
\<close>

fun resolve_axioms :: "ontology \<Rightarrow> string list list \<Rightarrow> error + entity list" where
  "resolve_axioms ont [] = Inr []"
| "resolve_axioms ont ([] # rest) = Inl IndexError"
| "resolve_axioms ont ((tok # toks) # rest) =
     (case resolve_axioms ont rest of
        Inl e \<Rightarrow> Inl e
      | Inr es \<Rightarrow>
          (case onto_get ont tok of
             None \<Rightarrow> Inr es
           | Some c \<Rightarrow> if c \<in> set (classes ont) then Inr (c # es) else Inr es))"

definition analyze_pellet_results :: "crash \<Rightarrow> editor \<Rightarrow> (error + entity list) \<times> editor" where
  "analyze_pellet_results exc ed =
     (let ed1 = log_error (exc_repr exc) ed;
          expl = extract_pellet_explanation (traceback exc)
      in if fst expl \<noteq> [] then
           (let ed2 = print (join_lines (fst expl))
                        (print ''Pellet provides the following explanation(s):'' ed1)
            in case resolve_axioms (onto ed) (concat (snd expl)) of
                 Inl e \<Rightarrow> (Inl e, ed2)
               | Inr inconsistent_classes \<Rightarrow> (Inr (remdups inconsistent_classes), ed2))
         else (Inr (remdups []),
               log_error (traceback exc)
                 (print ''There was a more complex issue, check log for traceback'' ed1)))"

section \<open>The consistency check\<close>

definition check_reasoner :: "string \<Rightarrow> editor \<Rightarrow> editor" where
  "check_reasoner reasoner ed =
     (if reasoner \<in> set [''hermit'', ''pellet''] then ed
      else log_warning ''unexpected reasoner'' ed)"

text \<open>
  The body of the \<^verbatim>\<open>try\<close>: which reasoner is run on the snapshot, and what comes
  back, the inferred snapshot or a crash. The reasoner \<open>R\<close> is a parameter. For a
  reasoner name that is neither \<^verbatim>\<open>hermit\<close> nor \<^verbatim>\<open>pellet\<close> nothing is run.
\<close>

definition sync_reasoner ::
  "(backend \<Rightarrow> ontology \<Rightarrow> crash + ontology) \<Rightarrow> string \<Rightarrow> bool \<Rightarrow> ontology
     \<Rightarrow> backend list \<times> (crash + ontology)" where
  "sync_reasoner R reasoner debug inf_onto =
     (if reasoner = ''hermit'' then ([Hermit], R Hermit inf_onto)
      else if reasoner = ''pellet''
      then ([Pellet (if debug then 2 else 1)], R (Pellet (if debug then 2 else 1)) inf_onto)
      else ([], Inr inf_onto))"

text \<open>
  The end of \<^verbatim>\<open>reasoning\<close>: a non-empty report is logged and loses the first
  occurrence of the bottom class (\<^verbatim>\<open>list.remove\<close>); an empty one, with \<^verbatim>\<open>save\<close>, writes
  the snapshot to the file and reloads the live ontology from it.
\<close>

definition conclude ::
  "bool \<Rightarrow> ontology \<Rightarrow> entity list \<Rightarrow> editor \<Rightarrow> (error + entity list) \<times> editor" where
  "conclude save_flag inf_onto inconsistent_classes ed =
     (if inconsistent_classes \<noteq> [] then
        (Inr (if Nothing \<in> set inconsistent_classes then remove1 Nothing inconsistent_classes
              else inconsistent_classes),
         log_warning ''the ontology is inconsistent'' ed)
      else if save_flag then
        (case reload_from_file (save inf_onto ed) of
           (Some e, ed') \<Rightarrow> (Inl e, ed')
         | (None, ed') \<Rightarrow> (Inr inconsistent_classes, ed'))
      else (Inr inconsistent_classes, ed))"

text \<open>
  \<^verbatim>\<open>reasoning\<close>. The snapshot is loaded from the file (a missing file raises). A crash of
  the reasoner leaves the loaded snapshot as it was.
\<close>

function reasoning ::
  "(backend \<Rightarrow> ontology \<Rightarrow> crash + ontology) \<Rightarrow> string \<Rightarrow> bool \<Rightarrow> bool \<Rightarrow> editor
     \<Rightarrow> (error + entity list) \<times> editor" where
  "reasoning R reasoner save_flag debug ed =
     (let ed0 = check_reasoner reasoner (ed\<lparr>calls := calls ed @ [(reasoner, save_flag, debug)]\<rparr>)
      in case persisted ed0 of
           None \<Rightarrow> (Inl LoadError, ed0)
         | Some inf_onto \<Rightarrow>
             (let run = sync_reasoner R reasoner debug inf_onto;
                  ed1 = ed0\<lparr>runs := runs ed0 @ fst run\<rparr>
              in case snd run of
                   Inr inferred \<Rightarrow> conclude save_flag inferred (unsat inferred) ed1
                 | Inl exc \<Rightarrow>
                     if reasoner = ''pellet'' \<and> debug then
                       (case analyze_pellet_results exc ed1 of
                          (Inl e, ed2) \<Rightarrow> (Inl e, ed2)
                        | (Inr ics, ed2) \<Rightarrow> conclude save_flag inf_onto ics ed2)
                     else
                       (case reasoning R ''pellet'' False True ed1 of
                          (Inl e, ed2) \<Rightarrow> (Inl e, ed2)
                        | (Inr ics, ed2) \<Rightarrow> conclude save_flag inf_onto ics ed2)))"
  by pat_completeness auto
termination
  by (relation "measure (\<lambda>(R, reasoner, save_flag, debug, ed).
        if reasoner = ''pellet'' \<and> debug then 0 else 1)") auto

text \<open>
  The check escalates when the first reasoner run crashes and was not already Pellet with
  explanations: the condition of the \<^verbatim>\<open>else\<close> branch of the exception handler.
\<close>

definition escalates ::
  "(backend \<Rightarrow> ontology \<Rightarrow> crash + ontology) \<Rightarrow> string \<Rightarrow> bool \<Rightarrow> editor \<Rightarrow> bool" where
  "escalates R reasoner debug ed =
     (case persisted ed of
        None \<Rightarrow> False
      | Some inf_onto \<Rightarrow>
          (case snd (sync_reasoner R reasoner debug inf_onto) of
             Inl exc \<Rightarrow> \<not> (reasoner = ''pellet'' \<and> debug)
           | Inr inferred \<Rightarrow> False))"

text \<open>The reasoner invocations of the first run of a check.\<close>

definition first_run ::
  "(backend \<Rightarrow> ontology \<Rightarrow> crash + ontology) \<Rightarrow> string \<Rightarrow> bool \<Rightarrow> editor \<Rightarrow> backend list" where
  "first_run R reasoner debug ed =
     (case persisted ed of
        None \<Rightarrow> []
      | Some inf_onto \<Rightarrow> fst (sync_reasoner R reasoner debug inf_onto))"

text \<open>The live ontology and the file are what they were, and nothing was saved.\<close>

definition same_store :: "editor \<Rightarrow> editor \<Rightarrow> bool" where
  "same_store ed ed' =
     (onto ed' = onto ed \<and> persisted ed' = persisted ed \<and> saves ed' = saves ed)"



subsection \<open>Example values\<close>

text \<open>
  The editor as \<^verbatim>\<open>__init__\<close> leaves it: the live ontology is what the file holds, the
  log and the output are empty.
\<close>

definition new_editor :: "ontology \<Rightarrow> editor" where
  "new_editor ont =
     \<lparr>onto = ont, persisted = Some ont, logged = [], stdout = [], stdin = [],
      saves = 0, calls = [], runs = []\<rparr>"

definition empty_onto :: ontology where
  "empty_onto = \<lparr>declared = [], is_a = (\<lambda>n. []), equivalent_to = (\<lambda>n. []), unsat = []\<rparr>"

text \<open>Two reasoners for examples: one that always crashes, one that infers nothing.\<close>

definition crashing :: "string \<Rightarrow> backend \<Rightarrow> ontology \<Rightarrow> crash + ontology" where
  "crashing tb b ont = Inl (Crash ''OwlReadyJavaError'' tb)"

definition idle :: "backend \<Rightarrow> ontology \<Rightarrow> crash + ontology" where
  "idle b ont = Inr ont"

text \<open>
  An ontology with a class \<^verbatim>\<open>Foo\<close> and a property \<^verbatim>\<open>hasPart\<close>, a Pellet traceback with
  one explanation block about them, and a reasoner that completes and finds \<^verbatim>\<open>Foo\<close>
  unsatisfiable.
\<close>

definition foo_onto :: ontology where
  "foo_onto = empty_onto\<lparr>declared := [(''Foo'', KClass), (''hasPart'', KObjectProperty)]\<rparr>"



section \<open>The yes/no/quit prompt\<close>

text \<open>\<^verbatim>\<open>input()\<close> reads the next line of standard input; at its end it raises.\<close>

definition input :: "editor \<Rightarrow> (error + string) \<times> editor" where
  "input ed =
     (case stdin ed of
        [] \<Rightarrow> (Inl EOFError, ed)
      | l # ls \<Rightarrow> (Inr l, ed\<lparr>stdin := ls\<rparr>))"

text \<open>The \<^verbatim>\<open>while\<close> loop of \<^verbatim>\<open>_bool_user_interaction\<close>, from the line just read.\<close>

function reprompt :: "string \<Rightarrow> editor \<Rightarrow> (error + string) \<times> editor" where
  "reprompt user_input ed =
     (if user_input \<in> set [''y'', ''n'', ''q''] then (Inr user_input, ed)
      else (case input (print ''invalid choice, please try again'' ed) of
              (Inl e, ed') \<Rightarrow> (Inl e, ed')
            | (Inr l, ed') \<Rightarrow> reprompt l ed'))"
  by pat_completeness auto
termination
  by (relation "measure (\<lambda>(user_input, ed). length (stdin ed))")
     (auto simp: input_def print_def split: list.splits)

text \<open>
  \<^verbatim>\<open>_bool_user_interaction\<close>. \<^verbatim>\<open>sys.exit(0)\<close> is the outcome \<open>SystemExit 0\<close>; a
  call that fell off the end of the function would return \<^verbatim>\<open>None\<close>.
\<close>

definition bool_user_interaction ::
  "string \<Rightarrow> string option \<Rightarrow> editor \<Rightarrow> (error + bool option) \<times> editor" where
  "bool_user_interaction question info ed =
     (let ed1 = (case info of None \<Rightarrow> ed | Some i \<Rightarrow> if i \<noteq> [] then print i ed else ed);
          ed2 = print (question @ '' [y(es), n(o), q(uit)]'') ed1
      in case input ed2 of
           (Inl e, ed3) \<Rightarrow> (Inl e, ed3)
         | (Inr l, ed3) \<Rightarrow>
             (case reprompt l ed3 of
                (Inl e, ed4) \<Rightarrow> (Inl e, ed4)
              | (Inr user_input, ed4) \<Rightarrow>
                  if user_input \<in> set [''y'', ''n'']
                  then (Inr (map_of [(''y'', True), (''n'', False)] user_input), ed4)
                  else if user_input = ''q''
                  then (Inl (SystemExit 0),
                        print ''quitting - process needs to be restarted'' ed4)
                  else (Inr None, ed4)))"

text \<open>The exit status of a Python process that ends normally.\<close>

definition exit_success :: int where
  "exit_success = 0"

text \<open>What the prompt prints before it reads.\<close>

definition prompt_lines :: "string \<Rightarrow> string option \<Rightarrow> string list" where
  "prompt_lines question info =
     (case info of None \<Rightarrow> [] | Some i \<Rightarrow> if i \<noteq> [] then [i] else [])
     @ [question @ '' [y(es), n(o), q(uit)]'']"

section \<open>Datatype constraints\<close>

text \<open>The table \<^verbatim>\<open>OntoEditor._dp_range_types\<close>, by its keys.\<close>

definition dp_range_types :: "(pyval \<times> prim) list" where
  "dp_range_types =
     [(PStr ''boolean'', TBool), (PStr ''float'', TFloat), (PStr ''integer'', TInt),
      (PStr ''string'', TStr), (PStr ''date'', TDate), (PStr ''time'', TTime),
      (PStr ''datetime'', TDatetime)]"

text \<open>
  \<^verbatim>\<open>_check_available_vals\<close>: the expected indices must be indices of the list; the test
  holds when the values at the expected indices are all truthy and no other value is.
\<close>

definition check_available_vals :: "pyval list \<Rightarrow> nat list \<Rightarrow> error + bool" where
  "check_available_vals values expected_values =
     (let indices = [0..<length values]
      in if list_all (\<lambda>x. x \<in> set indices) expected_values
         then Inr (list_all (\<lambda>i. truthy (values ! i)) expected_values
                   \<and> \<not> list_ex (\<lambda>i. truthy (values ! i))
                         (filter (\<lambda>e. e \<notin> set expected_values) indices))
         else Inl AssertionError)"

text \<open>
  The branches of \<^verbatim>\<open>_dp_constraint\<close>, in the order of the source: the indices each
  branch expects to hold values, and the facets it passes to \<^verbatim>\<open>ConstrainedDatatype\<close>
  with the index each takes its bound from. The first branch yields the bare type.
\<close>

definition dp_branches :: "(nat list \<times> (facet \<times> nat) list) list" where
  "dp_branches =
     [([0], []),
      ([0, 3], [(MinInclusive, 3), (MaxInclusive, 3)]),
      ([0, 1, 4], [(MinExclusive, 1), (MaxInclusive, 4)]),
      ([0, 1, 5], [(MinExclusive, 1), (MaxExclusive, 5)]),
      ([0, 2, 4], [(MinInclusive, 2), (MaxInclusive, 4)]),
      ([0, 2, 5], [(MinInclusive, 2), (MaxExclusive, 5)]),
      ([0, 1], [(MinExclusive, 1)]),
      ([0, 2], [(MinInclusive, 2)]),
      ([0, 4], [(MaxInclusive, 4)]),
      ([0, 5], [(MaxExclusive, 5)])]"

text \<open>The \<^verbatim>\<open>if\<close>/\<^verbatim>\<open>elif\<close> chain: the first branch whose test holds, if any.\<close>

fun first_branch ::
  "pyval list \<Rightarrow> (nat list \<times> (facet \<times> nat) list) list \<Rightarrow> error + (facet \<times> nat) list option" where
  "first_branch dpres [] = Inr None"
| "first_branch dpres (b # bs) =
     (case check_available_vals dpres (fst b) of
        Inl e \<Rightarrow> Inl e
      | Inr t \<Rightarrow> if t then Inr (Some (snd b)) else first_branch dpres bs)"

text \<open>
  \<^verbatim>\<open>_dp_constraint\<close>: the log entries it writes, and the datatype, \<^verbatim>\<open>None\<close> or the
  exception it ends in. The taken branch indexes the table of types with the name.
\<close>

definition dp_constraint :: "pyval list \<Rightarrow> log_entry list \<times> (error + dtype option)" where
  "dp_constraint dpres =
     (case dpres of
        [] \<Rightarrow> ([], Inl IndexError)
      | name # bounds \<Rightarrow>
          (let lg = (if name \<in> set (map fst dp_range_types) then []
                     else [Warning ''unexpected dp range''])
           in case first_branch dpres dp_branches of
                Inl e \<Rightarrow> (lg, Inl e)
              | Inr None \<Rightarrow> (lg @ [Warning ''unexpected dp range restriction''], Inr None)
              | Inr (Some facets) \<Rightarrow>
                  (case map_of dp_range_types name of
                     None \<Rightarrow> (lg, Inl KeyError)
                   | Some p \<Rightarrow>
                       if facets = [] then (lg, Inr (Some (Primitive p)))
                       else (lg, Inr (Some (ConstrainedDatatype p
                                              (map (\<lambda>f. (fst f, dpres ! snd f)) facets)))))))"

text \<open>
  The numbers a datatype admits, by the meaning of the four facets; a bound that is not a
  number admits nothing. The base type is not looked at.
\<close>

fun number :: "pyval \<Rightarrow> rat option" where
  "number (PInt i) = Some (of_int i)"
| "number (PFloat r) = Some r"
| "number v = None"

definition facet_holds :: "facet \<times> pyval \<Rightarrow> rat \<Rightarrow> bool" where
  "facet_holds f x =
     (case number (snd f) of
        None \<Rightarrow> False
      | Some b \<Rightarrow>
          (case fst f of
             MinExclusive \<Rightarrow> b < x
           | MinInclusive \<Rightarrow> b \<le> x
           | MaxInclusive \<Rightarrow> x \<le> b
           | MaxExclusive \<Rightarrow> x < b))"

definition accepts :: "dtype \<Rightarrow> rat \<Rightarrow> bool" where
  "accepts dt x =
     (case dt of
        Primitive p \<Rightarrow> True
      | ConstrainedDatatype p facets \<Rightarrow> list_all (\<lambda>f. facet_holds f x) facets)"

section \<open>The axiom builder\<close>

text \<open>
  An input tuple of \<^verbatim>\<open>add_axioms\<close>, by the fifteen fields its docstring lists:
  \<^verbatim>\<open>axiom[0]\<close> is \<open>a_class\<close>, and so on to \<^verbatim>\<open>axiom[14]\<close> (also read as
  \<^verbatim>\<open>axiom[-1]\<close>), \<open>a_equivalence\<close>. Shorter tuples are outside this type.
\<close>

record axiom_spec =
  a_class :: pyval
  a_superclass :: pyval
  a_property :: pyval
  a_inverted :: pyval
  a_card_type :: pyval
  a_cardinality :: pyval
  a_op_object :: pyval
  a_dp_range :: pyval
  a_dp_min_ex :: pyval
  a_dp_min_in :: pyval
  a_dp_exact :: pyval
  a_dp_max_in :: pyval
  a_dp_max_ex :: pyval
  a_negated :: pyval
  a_equivalence :: pyval

text \<open>The slice \<^verbatim>\<open>axiom[7:13]\<close>.\<close>

definition dpinfo_of :: "axiom_spec \<Rightarrow> pyval list" where
  "dpinfo_of axiom =
     [a_dp_range axiom, a_dp_min_ex axiom, a_dp_min_in axiom, a_dp_exact axiom,
      a_dp_max_in axiom, a_dp_max_ex axiom]"

text \<open>The list \<^verbatim>\<open>resinfo\<close> of \<^verbatim>\<open>_add_restr_to_def\<close>, by its five entries.\<close>

record resinfo =
  property :: "entity option"
  inverted :: pyval
  p_type :: pyval
  cardin :: pyval
  negated :: pyval

text \<open>
  The library calls of the builder. \<^verbatim>\<open>self.onto[x]\<close> for a field \<open>x\<close>: only a string
  names an entity. \<^verbatim>\<open>types.new_class\<close>: the class of that name, declared if it was not,
  with the parent among its \<^verbatim>\<open>is_a\<close>; a parent that is \<^verbatim>\<open>None\<close> or a name that is no
  string raises.
\<close>

definition onto_item :: "ontology \<Rightarrow> pyval \<Rightarrow> entity option" where
  "onto_item ont x = (case x of PStr name \<Rightarrow> onto_get ont name | _ \<Rightarrow> None)"

definition new_class :: "pyval \<Rightarrow> entity option \<Rightarrow> ontology \<Rightarrow> error + string \<times> ontology" where
  "new_class name parent ont =
     (case name of
        PStr n \<Rightarrow>
          (case parent of
             None \<Rightarrow> Inl TypeError
           | Some p \<Rightarrow>
               Inr (n, ont\<lparr>declared :=
                             (if map_of (declared ont) n = None then declared ont @ [(n, KClass)]
                              else declared ont),
                          is_a := (is_a ont)
                             (n := (if ClassRef p \<in> set (is_a ont n) then is_a ont n
                                    else is_a ont n @ [ClassRef p]))\<rparr>))
      | _ \<Rightarrow> Inl TypeError)"

text \<open>
  The end of \<^verbatim>\<open>_add_restr_to_def\<close>, from \<^verbatim>\<open>if resinfo[1]\<close> on: the restriction on the
  property (or its inverse) by cardinality type, negated if asked, appended to the list.
  \<^verbatim>\<open>getattr\<close> on a property that is \<^verbatim>\<open>None\<close> raises.
\<close>

definition build_restriction ::
  "construct list \<Rightarrow> resinfo \<Rightarrow> filler option \<Rightarrow> log_entry list
     \<Rightarrow> log_entry list \<times> (error + construct list)" where
  "build_restriction current_axioms ri obj lg =
     (let pe = (if truthy (inverted ri) then Some (Inverse (property ri))
                else map_option Prop (property ri));
          kind = (case p_type ri of PStr k \<Rightarrow> k | _ \<Rightarrow> [])
      in if p_type ri \<in> set [PStr ''some'', PStr ''only'', PStr ''value''] \<and> \<not> truthy (cardin ri)
         then (case pe of
                 None \<Rightarrow> (lg, Inl AttributeError)
               | Some pr \<Rightarrow>
                   (lg, Inr (current_axioms @
                      [if truthy (negated ri) then NotC (Restriction pr kind None obj)
                       else Restriction pr kind None obj])))
         else if p_type ri \<in> set [PStr ''exactly'', PStr ''max'', PStr ''min'']
                 \<and> truthy (cardin ri)
         then (case pe of
                 None \<Rightarrow> (lg, Inl AttributeError)
               | Some pr \<Rightarrow>
                   (lg, Inr (current_axioms @
                      [if truthy (negated ri)
                       then NotC (Restriction pr kind (Some (cardin ri)) obj)
                       else Restriction pr kind (Some (cardin ri)) obj])))
         else (lg @ [Warning ''unexpected cardinality definition''], Inr current_axioms))"

text \<open>
  The filler of a datatype restriction: for \<^verbatim>\<open>some\<close> and \<^verbatim>\<open>only\<close> the constraint, for
  \<^verbatim>\<open>value\<close> the exact value made a literal of the named type by \<open>conv\<close> (the call of the
  Python type, which may raise), else \<^verbatim>\<open>None\<close>.
\<close>

definition dp_filler ::
  "(prim \<Rightarrow> pyval \<Rightarrow> error + pyval) \<Rightarrow> resinfo \<Rightarrow> pyval list
     \<Rightarrow> log_entry list \<times> (error + filler option)" where
  "dp_filler conv ri dpinfo =
     (if p_type ri \<in> set [PStr ''some'', PStr ''only''] then
        (case dp_constraint dpinfo of
           (lg, Inl e) \<Rightarrow> (lg, Inl e)
         | (lg, Inr d) \<Rightarrow> (lg, Inr (map_option FDatatype d)))
      else if p_type ri \<in> set [PStr ''value''] then
        (if length dpinfo \<le> 3 then ([], Inl IndexError)
         else if truthy (dpinfo ! 3) then
           (case map_of dp_range_types (dpinfo ! 0) of
              None \<Rightarrow> ([], Inl KeyError)
            | Some p \<Rightarrow>
                (case conv p (dpinfo ! 3) of
                   Inl e \<Rightarrow> ([], Inl e)
                 | Inr v \<Rightarrow> ([], Inr (if v = PNone then None else Some (FLiteral v)))))
         else ([], Inr None))
      else ([], Inr None))"

text \<open>
  \<^verbatim>\<open>_add_restr_to_def\<close>: the log entries written and the list \<^verbatim>\<open>current_axioms\<close> as
  the call leaves it (the list it was given, where the call returns early), or the
  exception raised.
\<close>

definition add_restr_to_def ::
  "(prim \<Rightarrow> pyval \<Rightarrow> error + pyval) \<Rightarrow> construct list \<Rightarrow> resinfo \<Rightarrow> entity option list
     \<Rightarrow> pyval list \<Rightarrow> log_entry list \<times> (error + construct list)" where
  "add_restr_to_def conv current_axioms ri opinfo dpinfo =
     (if list_ex (\<lambda>x. x \<noteq> None) opinfo \<and> \<not> list_ex truthy dpinfo then
        build_restriction current_axioms ri (map_option FEntity (hd opinfo)) []
      else if \<not> list_ex (\<lambda>x. x \<noteq> None) opinfo \<and> list_ex truthy dpinfo then
        (if truthy (inverted ri) then
           ([Warning ''invalid dp constraint - dp may not be inverted''], Inr current_axioms)
         else
           (case dp_filler conv ri dpinfo of
              (lg, Inl e) \<Rightarrow> (lg, Inl e)
            | (lg, Inr None) \<Rightarrow> (lg @ [Warning ''invalid dp constraint''], Inr current_axioms)
            | (lg, Inr (Some obj)) \<Rightarrow>
                if p_type ri \<in> set [PStr ''exactly'', PStr ''max'', PStr ''min''] then
                  (lg @ [Warning ''qualified cardinality restrictions currently not supported for DPs''],
                   Inr current_axioms)
                else build_restriction current_axioms ri (Some obj) lg))
      else ([Warning ''restriction includes both op and dp''], Inr current_axioms))"

text \<open>
  The head of the loop body of \<^verbatim>\<open>add_axioms\<close>: the class of the tuple. \<open>my_class\<close> is
  the local variable of that name, \<open>None\<close> while unbound; it keeps its value where no class
  is defined. Appending \<^verbatim>\<open>None\<close> to \<^verbatim>\<open>equivalent_to\<close> raises.
\<close>

definition resolve_class ::
  "axiom_spec \<Rightarrow> string option \<Rightarrow> editor \<Rightarrow> error option \<times> string option \<times> editor" where
  "resolve_class axiom my_class ed =
     (if truthy (a_class axiom) \<and> truthy (a_superclass axiom) \<and> \<not> truthy (a_equivalence axiom)
      then
        (case new_class (a_class axiom) (onto_item (onto ed) (a_superclass axiom)) (onto ed) of
           Inl e \<Rightarrow> (Some e, my_class, ed)
         | Inr (n, ont) \<Rightarrow> (None, Some n, ed\<lparr>onto := ont\<rparr>))
      else if truthy (a_class axiom) \<and> truthy (a_superclass axiom) \<and> truthy (a_equivalence axiom)
      then
        (case new_class (a_class axiom) (Some Thing) (onto ed) of
           Inl e \<Rightarrow> (Some e, my_class, ed)
         | Inr (n, ont) \<Rightarrow>
             (case onto_item ont (a_superclass axiom) of
                None \<Rightarrow> (Some AttributeError, Some n, ed\<lparr>onto := ont\<rparr>)
              | Some parent \<Rightarrow>
                  (None, Some n,
                   ed\<lparr>onto := ont\<lparr>equivalent_to := (equivalent_to ont)
                                    (n := equivalent_to ont n @ [ClassRef parent])\<rparr>\<rparr>)))
      else if truthy (a_class axiom) \<and> \<not> truthy (a_superclass axiom)
      then
        (case new_class (a_class axiom) (Some Thing) (onto ed) of
           Inl e \<Rightarrow> (Some e, my_class, ed)
         | Inr (n, ont) \<Rightarrow> (None, Some n, ed\<lparr>onto := ont\<rparr>))
      else (None, my_class, log_warning ''no class defined'' ed))"

text \<open>
  The rest of the loop body: nothing more for a tuple that only declares a class; the
  restriction for a tuple with a property, a cardinality type and an object or a datatype
  name, added to the \<^verbatim>\<open>equivalent_to\<close> or the \<^verbatim>\<open>is_a\<close> of \<^verbatim>\<open>my_class\<close> (reading the
  variable while it is unbound raises); a warning for any other tuple.
\<close>

definition add_axiom ::
  "(prim \<Rightarrow> pyval \<Rightarrow> error + pyval) \<Rightarrow> axiom_spec \<Rightarrow> string option \<Rightarrow> editor
     \<Rightarrow> error option \<times> string option \<times> editor" where
  "add_axiom conv axiom my_class ed =
     (case resolve_class axiom my_class ed of
        (Some e, mc, ed1) \<Rightarrow> (Some e, mc, ed1)
      | (None, mc, ed1) \<Rightarrow>
          if \<not> truthy (a_property axiom) \<and> \<not> truthy (a_card_type axiom)
             \<and> \<not> truthy (a_cardinality axiom) \<and> \<not> truthy (a_op_object axiom)
          then (None, mc, ed1)
          else if (truthy (a_property axiom) \<and> truthy (a_card_type axiom)
                     \<and> truthy (a_op_object axiom))
                  \<or> (truthy (a_property axiom) \<and> truthy (a_card_type axiom)
                       \<and> truthy (a_dp_range axiom))
          then
            (case mc of
               None \<Rightarrow> (Some UnboundLocalError, mc, ed1)
             | Some c \<Rightarrow>
                 (let ont = onto ed1;
                      current_axioms =
                        (if truthy (a_equivalence axiom) then equivalent_to ont c else is_a ont c);
                      ri = \<lparr>property = onto_item ont (a_property axiom),
                            inverted = a_inverted axiom, p_type = a_card_type axiom,
                            cardin = a_cardinality axiom, negated = a_negated axiom\<rparr>;
                      r = add_restr_to_def conv current_axioms ri
                            [onto_item ont (a_op_object axiom)] (dpinfo_of axiom);
                      ed2 = ed1\<lparr>logged := logged ed1 @ fst r\<rparr>
                  in case snd r of
                       Inl e \<Rightarrow> (Some e, mc, ed2)
                     | Inr axs \<Rightarrow>
                         (None, mc,
                          ed2\<lparr>onto :=
                            (if truthy (a_equivalence axiom)
                             then ont\<lparr>equivalent_to := (equivalent_to ont)(c := axs)\<rparr>
                             else ont\<lparr>is_a := (is_a ont)(c := axs)\<rparr>)\<rparr>)))
          else (None, mc, log_warning ''unexpected input'' ed1))"

text \<open>
  \<^verbatim>\<open>add_axioms\<close>: the loop over the tuples, which an exception leaves at once, and the
  one save after it.
\<close>

fun add_axioms_loop ::
  "(prim \<Rightarrow> pyval \<Rightarrow> error + pyval) \<Rightarrow> axiom_spec list \<Rightarrow> string option \<Rightarrow> editor
     \<Rightarrow> error option \<times> editor" where
  "add_axioms_loop conv [] my_class ed = (None, ed)"
| "add_axioms_loop conv (axiom # rest) my_class ed =
     (case add_axiom conv axiom my_class ed of
        (Some e, mc, ed') \<Rightarrow> (Some e, ed')
      | (None, mc, ed') \<Rightarrow> add_axioms_loop conv rest mc ed')"

definition add_axioms ::
  "(prim \<Rightarrow> pyval \<Rightarrow> error + pyval) \<Rightarrow> axiom_spec list \<Rightarrow> editor \<Rightarrow> error option \<times> editor" where
  "add_axioms conv axiom_tuples ed =
     (case add_axioms_loop conv axiom_tuples None ed of
        (Some e, ed') \<Rightarrow> (Some e, ed')
      | (None, ed') \<Rightarrow> (None, save (onto ed') ed'))"

subsection \<open>Example tuples\<close>

text \<open>A tuple with every field empty, to build examples from.\<close>

definition blank :: axiom_spec where
  "blank =
     \<lparr>a_class = PNone, a_superclass = PNone, a_property = PNone, a_inverted = PNone,
      a_card_type = PNone, a_cardinality = PNone, a_op_object = PNone, a_dp_range = PNone,
      a_dp_min_ex = PNone, a_dp_min_in = PNone, a_dp_exact = PNone, a_dp_max_in = PNone,
      a_dp_max_ex = PNone, a_negated = PNone, a_equivalence = PNone\<rparr>"

text \<open>
  Two tuples for examples: one names no class and asks for the restriction
  \<^verbatim>\<open>hasPart some Foo\<close>, one only declares the class \<^verbatim>\<open>Bar\<close>.
\<close>

definition no_class_spec :: axiom_spec where
  "no_class_spec =
     blank\<lparr>a_property := PStr ''hasPart'', a_card_type := PStr ''some'',
           a_op_object := PStr ''Foo''\<rparr>"

definition bar_spec :: axiom_spec where
  "bar_spec = blank\<lparr>a_class := PStr ''Bar''\<rparr>"




section \<open>Properties of the consistency check\<close>

declare reasoning.simps [simp del]

lemma analyze_frame:
  assumes "analyze_pellet_results exc ed = (r, ed')"
  shows "onto ed' = onto ed \<and> persisted ed' = persisted ed \<and> saves ed' = saves ed
    \<and> calls ed' = calls ed \<and> runs ed' = runs ed"
  using assms
  by (auto simp: analyze_pellet_results_def Let_def log_error_def print_def
           split: if_splits sum.splits)

lemma conclude_trace:
  assumes "conclude sv snap ics ed = (r, ed')"
  shows "calls ed' = calls ed \<and> runs ed' = runs ed"
  using assms
  by (auto simp: conclude_def reload_from_file_def save_def log_info_def log_warning_def
           split: if_splits option.splits prod.splits)

lemma conclude_nosave:
  assumes "conclude False snap ics ed = (r, ed')"
  shows "same_store ed ed'"
  using assms
  by (auto simp: conclude_def same_store_def log_warning_def split: if_splits)

lemma reasoning_explainable:
  "reasoning R ''pellet'' sv True ed =
     (case persisted ed of
        None \<Rightarrow> (Inl LoadError, ed\<lparr>calls := calls ed @ [(''pellet'', sv, True)]\<rparr>)
      | Some inf_onto \<Rightarrow>
          (case R (Pellet 2) inf_onto of
             Inr inferred \<Rightarrow>
               conclude sv inferred (unsat inferred)
                 (ed\<lparr>calls := calls ed @ [(''pellet'', sv, True)], runs := runs ed @ [Pellet 2]\<rparr>)
           | Inl exc \<Rightarrow>
               (case analyze_pellet_results exc
                       (ed\<lparr>calls := calls ed @ [(''pellet'', sv, True)],
                           runs := runs ed @ [Pellet 2]\<rparr>) of
                  (Inl e, ed2) \<Rightarrow> (Inl e, ed2)
                | (Inr ics, ed2) \<Rightarrow> conclude sv inf_onto ics ed2)))"
  by (subst reasoning.simps)
     (simp add: check_reasoner_def sync_reasoner_def Let_def split: option.splits sum.splits)

lemma reasoning_other:
  assumes "\<not> (reasoner = ''pellet'' \<and> debug)"
  shows "reasoning R reasoner sv debug ed =
     (let ed0 = check_reasoner reasoner (ed\<lparr>calls := calls ed @ [(reasoner, sv, debug)]\<rparr>)
      in case persisted ed of
           None \<Rightarrow> (Inl LoadError, ed0)
         | Some inf_onto \<Rightarrow>
             (let ed1 = ed0\<lparr>runs := runs ed @ fst (sync_reasoner R reasoner debug inf_onto)\<rparr>
              in case snd (sync_reasoner R reasoner debug inf_onto) of
                   Inr inferred \<Rightarrow> conclude sv inferred (unsat inferred) ed1
                 | Inl exc \<Rightarrow>
                     (case reasoning R ''pellet'' False True ed1 of
                        (Inl e, ed2) \<Rightarrow> (Inl e, ed2)
                      | (Inr ics, ed2) \<Rightarrow> conclude sv inf_onto ics ed2)))"
  using assms
  by (subst reasoning.simps)
     (auto simp: check_reasoner_def log_warning_def Let_def split: option.splits sum.splits)

lemma explainable_trace:
  assumes "reasoning R ''pellet'' sv True ed = (r, ed')"
  shows "calls ed' = calls ed @ [(''pellet'', sv, True)]
    \<and> runs ed' = runs ed @ first_run R ''pellet'' True ed"
  using assms
  by (auto simp: reasoning_explainable first_run_def sync_reasoner_def
           split: option.splits sum.splits prod.splits
           dest!: conclude_trace analyze_frame)

lemma check_reasoner_frame [simp]:
  "onto (check_reasoner r ed) = onto ed"
  "persisted (check_reasoner r ed) = persisted ed"
  "saves (check_reasoner r ed) = saves ed"
  "calls (check_reasoner r ed) = calls ed"
  "runs (check_reasoner r ed) = runs ed"
  "stdout (check_reasoner r ed) = stdout ed"
  by (simp_all add: check_reasoner_def log_warning_def)

text \<open>
  C7. A check enters \<^verbatim>\<open>reasoning\<close> once, and a second time exactly when its first
  reasoner run crashed and was not already Pellet with explanations; the second entry is
  Pellet with explanations, and it runs the reasoner once more and never enters again. So
  the recursion is at most two deep. \<open>reasoning\<close> is a total function: its termination was
  proved where it was defined.
\<close>

theorem single_escalation:
  "calls (snd (reasoning R reasoner sv debug ed)) =
     calls ed @ (if escalates R reasoner debug ed
                 then [(reasoner, sv, debug), (''pellet'', False, True)]
                 else [(reasoner, sv, debug)])
   \<and> runs (snd (reasoning R reasoner sv debug ed)) =
     runs ed @ first_run R reasoner debug ed
       @ (if escalates R reasoner debug ed then [Pellet 2] else [])
   \<and> length (calls (snd (reasoning R reasoner sv debug ed))) \<le> length (calls ed) + 2"
proof (cases "reasoner = ''pellet'' \<and> debug")
  case True
  then have "\<not> escalates R reasoner debug ed"
    by (simp add: escalates_def split: option.splits sum.splits)
  moreover obtain r ed' where "reasoning R ''pellet'' sv True ed = (r, ed')"
    by (cases "reasoning R ''pellet'' sv True ed")
  ultimately show ?thesis
    using True explainable_trace [of R sv ed r ed'] by simp
next
  case False
  show ?thesis
  proof (cases "persisted ed")
    case None
    with False show ?thesis
      by (simp add: reasoning_other escalates_def first_run_def)
  next
    case (Some snap)
    show ?thesis
    proof (cases "snd (sync_reasoner R reasoner debug snap)")
      case (Inr inferred)
      obtain r ed' where c: "conclude sv inferred (unsat inferred)
          ((check_reasoner reasoner (ed\<lparr>calls := calls ed @ [(reasoner, sv, debug)]\<rparr>))
             \<lparr>runs := runs ed @ fst (sync_reasoner R reasoner debug snap)\<rparr>) = (r, ed')"
        by (cases "conclude sv inferred (unsat inferred)
          ((check_reasoner reasoner (ed\<lparr>calls := calls ed @ [(reasoner, sv, debug)]\<rparr>))
             \<lparr>runs := runs ed @ fst (sync_reasoner R reasoner debug snap)\<rparr>)")
      from conclude_trace [OF c] False Some Inr c show ?thesis
        by (simp add: reasoning_other escalates_def first_run_def Let_def)
    next
      case (Inl exc)
      define ed1 where "ed1 =
        (check_reasoner reasoner (ed\<lparr>calls := calls ed @ [(reasoner, sv, debug)]\<rparr>))
          \<lparr>runs := runs ed @ fst (sync_reasoner R reasoner debug snap)\<rparr>"
      obtain r2 ed2 where inner: "reasoning R ''pellet'' False True ed1 = (r2, ed2)"
        by (cases "reasoning R ''pellet'' False True ed1")
      have p1: "persisted ed1 = Some snap"
        by (simp add: ed1_def Some)
      have t2: "calls ed2 = calls ed @ [(reasoner, sv, debug), (''pellet'', False, True)]"
        "runs ed2 = runs ed @ fst (sync_reasoner R reasoner debug snap) @ [Pellet 2]"
        using explainable_trace [OF inner] p1
        by (simp_all add: ed1_def first_run_def sync_reasoner_def)
      have esc: "escalates R reasoner debug ed"
        using False Some Inl by (simp add: escalates_def)
      have unfold: "reasoning R reasoner sv debug ed =
          (case r2 of Inl e \<Rightarrow> (Inl e, ed2) | Inr ics \<Rightarrow> conclude sv snap ics ed2)"
        using False Some Inl inner
        by (simp add: reasoning_other Let_def ed1_def)
      show ?thesis
      proof (cases r2)
        case (Inl e)
        with unfold t2 esc Some show ?thesis
          by (simp add: first_run_def)
      next
        case (Inr ics)
        obtain r ed' where c: "conclude sv snap ics ed2 = (r, ed')"
          by (cases "conclude sv snap ics ed2")
        from conclude_trace [OF c] c Inr unfold t2 esc Some show ?thesis
          by (simp add: first_run_def)
      qed
    qed
  qed
qed

theorem single_escalation_witness:
  "escalates (crashing ''java: not found'') ''hermit'' False (new_editor empty_onto)
   \<and> calls (snd (reasoning (crashing ''java: not found'') ''hermit'' True False
                    (new_editor empty_onto)))
       = [(''hermit'', True, False), (''pellet'', False, True)]
   \<and> runs (snd (reasoning (crashing ''java: not found'') ''hermit'' True False
                   (new_editor empty_onto)))
       = [Hermit, Pellet 2]
   \<and> \<not> escalates (crashing ''java: not found'') ''pellet'' True (new_editor empty_onto)
   \<and> calls (snd (reasoning (crashing ''java: not found'') ''pellet'' False True
                    (new_editor empty_onto)))
       = [(''pellet'', False, True)]"
proof -
  have e1: "escalates (crashing ''java: not found'') ''hermit'' False (new_editor empty_onto)"
    by code_simp
  have f1: "first_run (crashing ''java: not found'') ''hermit'' False (new_editor empty_onto)
      = [Hermit]"
    by code_simp
  have e2: "\<not> escalates (crashing ''java: not found'') ''pellet'' True (new_editor empty_onto)"
    by code_simp
  from single_escalation [of "crashing ''java: not found''" "''hermit''" True False
      "new_editor empty_onto"]
    single_escalation [of "crashing ''java: not found''" "''pellet''" False True
      "new_editor empty_onto"]
    e1 f1 e2
  show ?thesis
    by (simp add: new_editor_def)
qed

lemma explainable_nosave:
  assumes "reasoning R ''pellet'' False True ed = (r, ed')"
  shows "same_store ed ed'"
  using assms
  by (auto simp: reasoning_explainable same_store_def
           split: option.splits sum.splits prod.splits
           dest!: conclude_nosave analyze_frame)

lemma reasoning_nosave:
  "same_store ed (snd (reasoning R reasoner False debug ed))"
proof (cases "reasoner = ''pellet'' \<and> debug")
  case True
  then show ?thesis
    using explainable_nosave [of R ed "fst (reasoning R ''pellet'' False True ed)"
        "snd (reasoning R ''pellet'' False True ed)"]
    by simp
next
  case False
  define ed0 where "ed0 = check_reasoner reasoner (ed\<lparr>calls := calls ed @ [(reasoner, False, debug)]\<rparr>)"
  have s0: "same_store ed ed0"
    by (simp add: ed0_def same_store_def)
  show ?thesis
  proof (cases "persisted ed")
    case None
    with False s0 show ?thesis
      by (simp add: reasoning_other ed0_def)
  next
    case (Some snap)
    define ed1 where "ed1 = ed0\<lparr>runs := runs ed @ fst (sync_reasoner R reasoner debug snap)\<rparr>"
    have s1: "same_store ed ed1"
      using s0 by (simp add: ed1_def same_store_def)
    show ?thesis
    proof (cases "snd (sync_reasoner R reasoner debug snap)")
      case (Inr inferred)
      obtain r ed' where c: "conclude False inferred (unsat inferred) ed1 = (r, ed')"
        by (cases "conclude False inferred (unsat inferred) ed1")
      from conclude_nosave [OF c] s1 have "same_store ed ed'"
        by (simp add: same_store_def)
      with False Some Inr c show ?thesis
        by (simp add: reasoning_other Let_def ed0_def ed1_def)
    next
      case (Inl exc)
      obtain r2 ed2 where inner: "reasoning R ''pellet'' False True ed1 = (r2, ed2)"
        by (cases "reasoning R ''pellet'' False True ed1")
      from explainable_nosave [OF inner] s1 have s2: "same_store ed ed2"
        by (simp add: same_store_def)
      have unfold: "reasoning R reasoner False debug ed =
          (case r2 of Inl e \<Rightarrow> (Inl e, ed2) | Inr ics \<Rightarrow> conclude False snap ics ed2)"
        using False Some Inl inner
        by (simp add: reasoning_other Let_def ed0_def ed1_def)
      show ?thesis
      proof (cases r2)
        case (Inl e)
        with unfold s2 show ?thesis by simp
      next
        case (Inr ics)
        obtain r ed' where c: "conclude False snap ics ed2 = (r, ed')"
          by (cases "conclude False snap ics ed2")
        from conclude_nosave [OF c] s2 have "same_store ed ed'"
          by (simp add: same_store_def)
        with unfold Inr c show ?thesis by simp
      qed
    qed
  qed
qed

lemma consistent_check:
  assumes "persisted ed = Some snap"
    and "snd (sync_reasoner R reasoner debug snap) = Inr inferred"
    and "unsat inferred = []"
  shows "fst (reasoning R reasoner sv debug ed) = Inr []"
proof (cases "reasoner = ''pellet'' \<and> debug")
  case True
  with assms show ?thesis
    by (simp add: reasoning_explainable sync_reasoner_def conclude_def reload_from_file_def
          save_def)
next
  case False
  with assms show ?thesis
    by (simp add: reasoning_other Let_def conclude_def reload_from_file_def save_def)
qed

text \<open>
  C4. A check with \<^verbatim>\<open>save=False\<close> of an ontology the reasoner finds consistent (the run
  completes and lists no unsatisfiable class) returns the empty report and leaves the live
  ontology and the file as they were, without a save; so does a second check right after it.
\<close>

theorem check_without_save:
  assumes "persisted ed = Some snap"
    and "snd (sync_reasoner R reasoner debug snap) = Inr inferred"
    and "unsat inferred = []"
  shows "fst (reasoning R reasoner False debug ed) = Inr []
    \<and> same_store ed (snd (reasoning R reasoner False debug ed))
    \<and> fst (reasoning R reasoner False debug (snd (reasoning R reasoner False debug ed))) = Inr []
    \<and> same_store ed
        (snd (reasoning R reasoner False debug (snd (reasoning R reasoner False debug ed))))"
proof -
  define ed1 where "ed1 = snd (reasoning R reasoner False debug ed)"
  have s1: "same_store ed ed1"
    unfolding ed1_def by (rule reasoning_nosave)
  then have p1: "persisted ed1 = Some snap"
    using assms(1) by (simp add: same_store_def)
  have s2: "same_store ed1 (snd (reasoning R reasoner False debug ed1))"
    by (rule reasoning_nosave)
  with s1 have "same_store ed (snd (reasoning R reasoner False debug ed1))"
    by (simp add: same_store_def)
  with s1 consistent_check [OF assms] consistent_check [OF p1 assms(2,3)] show ?thesis
    by (simp add: ed1_def)
qed

theorem check_without_save_witness:
  "persisted (new_editor empty_onto) = Some empty_onto
   \<and> snd (sync_reasoner idle ''hermit'' False empty_onto) = Inr empty_onto
   \<and> unsat empty_onto = []
   \<and> fst (reasoning idle ''hermit'' False False (new_editor empty_onto)) = Inr []
   \<and> same_store (new_editor empty_onto)
       (snd (reasoning idle ''hermit'' False False (new_editor empty_onto)))
   \<and> fst (reasoning idle ''hermit'' False False
       (snd (reasoning idle ''hermit'' False False (new_editor empty_onto)))) = Inr []
   \<and> same_store (new_editor empty_onto)
       (snd (reasoning idle ''hermit'' False False
         (snd (reasoning idle ''hermit'' False False (new_editor empty_onto)))))"
proof -
  have h1: "persisted (new_editor empty_onto) = Some empty_onto"
    by (simp add: new_editor_def)
  have h2: "snd (sync_reasoner idle ''hermit'' False empty_onto) = Inr empty_onto"
    by (simp add: sync_reasoner_def idle_def)
  have h3: "unsat empty_onto = []"
    by (simp add: empty_onto_def)
  from check_without_save [where R = idle, OF h1 h2 h3] h1 h2 h3 show ?thesis
    by simp
qed

lemma analyze_no_blocks:
  assumes "findall_explanations (traceback exc) = []"
  shows "analyze_pellet_results exc ed =
    (Inr [], log_error (traceback exc)
       (print ''There was a more complex issue, check log for traceback''
          (log_error (exc_repr exc) ed)))"
  using assms
  by (simp add: analyze_pellet_results_def extract_pellet_explanation_def Let_def)

lemma conclude_empty:
  "fst (conclude sv snap [] ed) = Inr []
   \<and> stdout (snd (conclude sv snap [] ed)) = stdout ed
   \<and> set (logged ed) \<subseteq> set (logged (snd (conclude sv snap [] ed)))"
  by (auto simp: conclude_def reload_from_file_def save_def log_info_def)

lemma explainable_unparsed:
  assumes "persisted ed = Some snap"
    and "R (Pellet 2) snap = Inl exc"
    and "findall_explanations (traceback exc) = []"
  shows "fst (reasoning R ''pellet'' sv True ed) = Inr []
    \<and> ''There was a more complex issue, check log for traceback''
        \<in> set (stdout (snd (reasoning R ''pellet'' sv True ed)))
    \<and> Error (traceback exc) \<in> set (logged (snd (reasoning R ''pellet'' sv True ed)))"
proof -
  define ed2 where "ed2 = log_error (traceback exc)
       (print ''There was a more complex issue, check log for traceback''
          (log_error (exc_repr exc)
             (ed\<lparr>calls := calls ed @ [(''pellet'', sv, True)], runs := runs ed @ [Pellet 2]\<rparr>)))"
  have unfold: "reasoning R ''pellet'' sv True ed = conclude sv snap [] ed2"
    using assms by (simp add: reasoning_explainable analyze_no_blocks ed2_def)
  have "''There was a more complex issue, check log for traceback'' \<in> set (stdout ed2)"
    and "Error (traceback exc) \<in> set (logged ed2)"
    by (simp_all add: ed2_def log_error_def print_def)
  with conclude_empty [of sv snap ed2] unfold show ?thesis
    by auto
qed

text \<open>
  C2, as the code has it. When the first reasoner run of a check crashes and the Pellet run
  with explanations (the same run, or the one the check escalates to) crashes with a
  traceback that holds no explanation block, the check prints a notice, logs the traceback
  as an error and returns the empty list: the value it returns for a consistent ontology.
\<close>

theorem unparsed_failure_reads_consistent:
  assumes "persisted ed = Some snap"
    and "snd (sync_reasoner R reasoner debug snap) = Inl exc0"
    and "R (Pellet 2) snap = Inl exc"
    and "findall_explanations (traceback exc) = []"
  shows "fst (reasoning R reasoner sv debug ed) = Inr []
    \<and> ''There was a more complex issue, check log for traceback''
        \<in> set (stdout (snd (reasoning R reasoner sv debug ed)))
    \<and> Error (traceback exc) \<in> set (logged (snd (reasoning R reasoner sv debug ed)))"
proof (cases "reasoner = ''pellet'' \<and> debug")
  case True
  with explainable_unparsed [where R = R and sv = sv, OF assms(1,3,4)] show ?thesis
    by simp
next
  case False
  define ed1 where "ed1 =
    (check_reasoner reasoner (ed\<lparr>calls := calls ed @ [(reasoner, sv, debug)]\<rparr>))
      \<lparr>runs := runs ed @ fst (sync_reasoner R reasoner debug snap)\<rparr>"
  define ed2 where "ed2 = snd (reasoning R ''pellet'' False True ed1)"
  have p1: "persisted ed1 = Some snap"
    by (simp add: ed1_def assms(1))
  note inner = explainable_unparsed [where R = R and sv = False, OF p1 assms(3,4)]
  then have inner_eq: "reasoning R ''pellet'' False True ed1 = (Inr [], ed2)"
    by (simp add: ed2_def prod_eq_iff)
  have unfold: "reasoning R reasoner sv debug ed = conclude sv snap [] ed2"
    using False assms(1,2) inner_eq
    by (simp add: reasoning_other Let_def ed1_def)
  from inner conclude_empty [of sv snap ed2] unfold show ?thesis
    by (auto simp: ed2_def)
qed

theorem unparsed_failure_reads_consistent_witness:
  "persisted (new_editor empty_onto) = Some empty_onto
   \<and> snd (sync_reasoner (crashing ''java: not found'') ''hermit'' False empty_onto)
       = Inl (Crash ''OwlReadyJavaError'' ''java: not found'')
   \<and> crashing ''java: not found'' (Pellet 2) empty_onto
       = Inl (Crash ''OwlReadyJavaError'' ''java: not found'')
   \<and> findall_explanations (traceback (Crash ''OwlReadyJavaError'' ''java: not found'')) = []
   \<and> fst (reasoning (crashing ''java: not found'') ''hermit'' True False
            (new_editor empty_onto)) = Inr []
   \<and> ''There was a more complex issue, check log for traceback''
        \<in> set (stdout (snd (reasoning (crashing ''java: not found'') ''hermit'' True False
                               (new_editor empty_onto))))
   \<and> Error (traceback (Crash ''OwlReadyJavaError'' ''java: not found''))
        \<in> set (logged (snd (reasoning (crashing ''java: not found'') ''hermit'' True False
                               (new_editor empty_onto))))"
proof -
  have h1: "persisted (new_editor empty_onto) = Some empty_onto"
    by (simp add: new_editor_def)
  have h2: "snd (sync_reasoner (crashing ''java: not found'') ''hermit'' False empty_onto)
       = Inl (Crash ''OwlReadyJavaError'' ''java: not found'')"
    by (simp add: sync_reasoner_def crashing_def)
  have h3: "crashing ''java: not found'' (Pellet 2) empty_onto
       = Inl (Crash ''OwlReadyJavaError'' ''java: not found'')"
    by (simp add: crashing_def)
  have h4: "findall_explanations (traceback (Crash ''OwlReadyJavaError'' ''java: not found'')) = []"
    by code_simp
  from unparsed_failure_reads_consistent
      [where R = "crashing ''java: not found''" and sv = True, OF h1 h2 h3 h4] h1 h2 h3 h4
  show ?thesis
    by simp
qed

text \<open>
  C2, as claimed, fails: a check whose reasoner runs both crash with a traceback without an
  explanation block returns what a check of a consistent ontology returns.
\<close>

theorem unparsed_failure_counterexample:
  "findall_explanations ''java: not found'' = []
   \<and> fst (reasoning (crashing ''java: not found'') ''hermit'' False False (new_editor empty_onto))
     = Inr []
   \<and> fst (reasoning idle ''hermit'' False False (new_editor empty_onto)) = Inr []"
  by code_simp















section \<open>Properties of the prompt\<close>

declare reprompt.simps [simp del]

lemma reprompt_skips:
  assumes "list_all (\<lambda>l. l \<notin> set [''y'', ''n'', ''q'']) bad"
    and "x \<in> set [''y'', ''n'', ''q'']"
    and "stdin ed = bad @ x # rest"
    and "u \<notin> set [''y'', ''n'', ''q'']"
  shows "reprompt u ed =
    (Inr x, ed\<lparr>stdin := rest,
               stdout := stdout ed
                 @ replicate (Suc (length bad)) ''invalid choice, please try again''\<rparr>)"
  using assms
proof (induction bad arbitrary: u ed)
  case Nil
  then have "reprompt x (ed\<lparr>stdout := stdout ed @ [''invalid choice, please try again''],
                            stdin := rest\<rparr>)
      = (Inr x, ed\<lparr>stdout := stdout ed @ [''invalid choice, please try again''], stdin := rest\<rparr>)"
    by (subst reprompt.simps) simp
  with Nil show ?case
    by (subst reprompt.simps) (simp add: input_def print_def)
next
  case (Cons b bs)
  define ed' where
    "ed' = ed\<lparr>stdout := stdout ed @ [''invalid choice, please try again''],
              stdin := bs @ x # rest\<rparr>"
  have "reprompt b ed' =
    (Inr x, ed'\<lparr>stdin := rest,
                stdout := stdout ed'
                  @ replicate (Suc (length bs)) ''invalid choice, please try again''\<rparr>)"
    using Cons.prems by (intro Cons.IH) (simp_all add: ed'_def)
  with Cons.prems show ?case
    by (subst reprompt.simps) (simp add: input_def print_def ed'_def)
qed

lemma reprompt_valid:
  "x \<in> set [''y'', ''n'', ''q''] \<Longrightarrow> reprompt x ed = (Inr x, ed)"
  by (subst reprompt.simps) simp

text \<open>
  C5, as the code has it. The prompt takes the first of the lines \<^verbatim>\<open>y\<close>, \<^verbatim>\<open>n\<close>, \<^verbatim>\<open>q\<close>
  (compared as they are, so \<^verbatim>\<open>Y\<close> is not one of them) and prints one notice for every
  line read before it. \<^verbatim>\<open>y\<close> returns true, \<^verbatim>\<open>n\<close> false; \<^verbatim>\<open>q\<close> prints a notice and ends the
  process through \<^verbatim>\<open>sys.exit(0)\<close>, the exit status of success.
\<close>

theorem prompt_outcome:
  assumes "list_all (\<lambda>l. l \<notin> set [''y'', ''n'', ''q'']) bad"
    and "x \<in> set [''y'', ''n'', ''q'']"
    and "stdin ed = bad @ x # rest"
  shows "bool_user_interaction question info ed =
    (if x = ''q'' then Inl (SystemExit exit_success) else Inr (Some (x = ''y'')),
     ed\<lparr>stdin := rest,
        stdout := stdout ed @ prompt_lines question info
          @ replicate (length bad) ''invalid choice, please try again''
          @ (if x = ''q'' then [''quitting - process needs to be restarted''] else [])\<rparr>)"
proof -
  define ed2 where "ed2 = ed\<lparr>stdout := stdout ed @ prompt_lines question info\<rparr>"
  have e2: "print (question @ '' [y(es), n(o), q(uit)]'')
      (case info of None \<Rightarrow> ed | Some i \<Rightarrow> if i \<noteq> [] then print i ed else ed) = ed2"
    by (simp add: ed2_def prompt_lines_def print_def split: option.splits)
  have loop: "\<exists>l ed3. input ed2 = (Inr l, ed3) \<and> reprompt l ed3 =
      (Inr x, ed2\<lparr>stdin := rest,
                  stdout := stdout ed2
                    @ replicate (length bad) ''invalid choice, please try again''\<rparr>)"
  proof (cases bad)
    case Nil
    with assms show ?thesis
      by (simp add: input_def ed2_def reprompt_valid)
  next
    case (Cons b bs)
    with assms have "reprompt b (ed2\<lparr>stdin := bs @ x # rest\<rparr>) =
      (Inr x, ed2\<lparr>stdin := bs @ x # rest\<rparr>\<lparr>stdin := rest,
         stdout := stdout (ed2\<lparr>stdin := bs @ x # rest\<rparr>)
           @ replicate (Suc (length bs)) ''invalid choice, please try again''\<rparr>)"
      by (intro reprompt_skips) simp_all
    with Cons assms show ?thesis
      by (simp add: input_def ed2_def)
  qed
  then obtain l ed3 where "input ed2 = (Inr l, ed3)" and "reprompt l ed3 =
      (Inr x, ed2\<lparr>stdin := rest,
                  stdout := stdout ed2
                    @ replicate (length bad) ''invalid choice, please try again''\<rparr>)"
    by blast
  with assms(2) e2 show ?thesis
    by (auto simp: bool_user_interaction_def Let_def print_def ed2_def exit_success_def)
qed

theorem prompt_outcome_witness:
  "list_all (\<lambda>l. l \<notin> set [''y'', ''n'', ''q'']) [''Y'', ''yes'']
   \<and> ''q'' \<in> set [''y'', ''n'', ''q'']
   \<and> stdin ((new_editor empty_onto)\<lparr>stdin := [''Y'', ''yes'', ''q'', ''y'']\<rparr>)
       = [''Y'', ''yes''] @ ''q'' # [''y'']
   \<and> bool_user_interaction ''Delete is_a axiom?'' None
       ((new_editor empty_onto)\<lparr>stdin := [''Y'', ''yes'', ''q'', ''y'']\<rparr>)
     = (Inl (SystemExit 0),
        (new_editor empty_onto)\<lparr>stdin := [''y''],
          stdout := [''Delete is_a axiom? [y(es), n(o), q(uit)]'',
                     ''invalid choice, please try again'',
                     ''invalid choice, please try again'',
                     ''quitting - process needs to be restarted'']\<rparr>)"
proof -
  have h1: "list_all (\<lambda>l. l \<notin> set [''y'', ''n'', ''q'']) [''Y'', ''yes'']"
    by simp
  have h2: "''q'' \<in> set [''y'', ''n'', ''q'']"
    by simp
  have h3: "stdin ((new_editor empty_onto)\<lparr>stdin := [''Y'', ''yes'', ''q'', ''y'']\<rparr>)
       = [''Y'', ''yes''] @ ''q'' # [''y'']"
    by simp
  from prompt_outcome [OF h1 h2 h3, of "''Delete is_a axiom?''" None] h1 h2 h3 show ?thesis
    by (simp add: prompt_lines_def exit_success_def new_editor_def numeral_2_eq_2)
qed

text \<open>
  C5, as claimed, fails in its last part: on \<^verbatim>\<open>q\<close> the process exits with the status of
  success.
\<close>

theorem prompt_quit_counterexample:
  "fst (bool_user_interaction ''Delete is_a axiom?'' None
          ((new_editor empty_onto)\<lparr>stdin := [''q'']\<rparr>))
   = Inl (SystemExit exit_success)"
  by code_simp

section \<open>Properties of the datatype constraints\<close>

text \<open>
  C6. With the bound 0 the code does not build the half-open interval: 0 is not truthy,
  so \<^verbatim>\<open>_check_available_vals\<close> takes the lower bound for absent, the branch of the upper
  bound alone is taken, and the constraint admits \<open>-1\<close>.
\<close>

theorem zero_bound_dropped:
  "dp_constraint [PStr ''float'', PNone, PInt 0, PNone, PNone, PInt 10]
     = ([], Inr (Some (ConstrainedDatatype TFloat [(MaxExclusive, PInt 10)])))
   \<and> accepts (ConstrainedDatatype TFloat [(MaxExclusive, PInt 10)]) (- 1)
   \<and> check_available_vals [PStr ''float'', PNone, PInt 0, PNone, PNone, PInt 10] [0, 2, 5]
       = Inr False"
  by code_simp

text \<open>Bounds that are truthy give the half-open interval.\<close>

lemma half_open_constraint:
  assumes "map_of dp_range_types name = Some p" and "truthy lo" and "truthy hi"
  shows "dp_constraint [name, PNone, lo, PNone, PNone, hi]
     = ([], Inr (Some (ConstrainedDatatype p [(MinInclusive, lo), (MaxExclusive, hi)])))"
proof -
  from assms(1) have "name \<in> set (map fst dp_range_types)"
    by (metis map_of_SomeD image_eqI fst_conv set_map)
  moreover from assms(1) have "truthy name"
    by (auto simp: dp_range_types_def split: if_splits)
  ultimately show ?thesis
    using assms
    by (simp add: dp_constraint_def dp_branches_def check_available_vals_def upt_rec)
qed

lemma half_open_accepts:
  "accepts (ConstrainedDatatype p [(MinInclusive, PInt 1), (MaxExclusive, PInt 10)]) x
     = (1 \<le> x \<and> x < 10)"
  by (simp add: accepts_def facet_holds_def)

lemma first_branch_find:
  assumes "list_all (\<lambda>b. list_all (\<lambda>i. i < length dpres) (fst b)) bs"
  shows "first_branch dpres bs
     = Inr (map_option snd (find (\<lambda>b. check_available_vals dpres (fst b) = Inr True) bs))"
  using assms
  by (induction bs) (auto simp: check_available_vals_def)

text \<open>
  C10, as the code has it. For a datatype name that is none of the seven, in a list of
  the six fields, \<^verbatim>\<open>_dp_constraint\<close> logs a warning and then raises \<^verbatim>\<open>KeyError\<close> exactly
  when the populated fields are one of the ten combinations it knows (the name alone is
  the first); for any other combination it logs a second warning and returns \<^verbatim>\<open>None\<close>.
\<close>

theorem unknown_range:
  assumes "length dpres = 6" and "dpres ! 0 \<notin> set (map fst dp_range_types)"
  shows "dp_constraint dpres =
     (if list_ex (\<lambda>b. check_available_vals dpres (fst b) = Inr True) dp_branches
      then ([Warning ''unexpected dp range''], Inl KeyError)
      else ([Warning ''unexpected dp range'', Warning ''unexpected dp range restriction''],
            Inr None))"
proof -
  from assms(1) obtain name bounds where d: "dpres = name # bounds"
    by (cases dpres) auto
  with assms(2) have n: "name \<notin> set (map fst dp_range_types)"
    by simp
  then have m: "map_of dp_range_types name = None"
    by (simp add: map_of_eq_None_iff)
  have "list_all (\<lambda>b. list_all (\<lambda>i. i < length dpres) (fst b)) dp_branches"
    using assms(1) by (simp add: dp_branches_def)
  from first_branch_find [OF this]
  have f: "first_branch dpres dp_branches
     = Inr (map_option snd (find (\<lambda>b. check_available_vals dpres (fst b) = Inr True)
                              dp_branches))" .
  show ?thesis
  proof (cases "find (\<lambda>b. check_available_vals dpres (fst b) = Inr True) dp_branches")
    case None
    then have "\<not> list_ex (\<lambda>b. check_available_vals dpres (fst b) = Inr True) dp_branches"
      by (force simp: find_None_iff list_ex_iff)
    with None f d n m show ?thesis
      by (simp add: dp_constraint_def)
  next
    case (Some b)
    then obtain i where "i < length dp_branches"
      and "check_available_vals dpres (fst (dp_branches ! i)) = Inr True"
      by (auto simp: find_Some_iff)
    then have "list_ex (\<lambda>b. check_available_vals dpres (fst b) = Inr True) dp_branches"
      unfolding list_ex_iff using nth_mem by blast
    with Some f d n m show ?thesis
      by (simp add: dp_constraint_def)
  qed
qed

theorem unknown_range_witness:
  "length [PStr ''colour'', PNone, PInt 2, PNone, PNone, PNone] = 6
   \<and> [PStr ''colour'', PNone, PInt 2, PNone, PNone, PNone] ! 0
       \<notin> set (map fst dp_range_types)
   \<and> list_ex (\<lambda>b. check_available_vals [PStr ''colour'', PNone, PInt 2, PNone, PNone, PNone]
                     (fst b) = Inr True) dp_branches
   \<and> dp_constraint [PStr ''colour'', PNone, PInt 2, PNone, PNone, PNone]
       = ([Warning ''unexpected dp range''], Inl KeyError)"
proof -
  have h1: "length [PStr ''colour'', PNone, PInt 2, PNone, PNone, PNone] = 6"
    by simp
  have h2: "[PStr ''colour'', PNone, PInt 2, PNone, PNone, PNone] ! 0
       \<notin> set (map fst dp_range_types)"
    by (simp add: dp_range_types_def)
  have h3: "list_ex (\<lambda>b. check_available_vals
                     [PStr ''colour'', PNone, PInt 2, PNone, PNone, PNone] (fst b) = Inr True)
              dp_branches"
    by code_simp
  from unknown_range [OF h1 h2] h1 h2 h3 show ?thesis
    by simp
qed

text \<open>
  C10, as claimed, fails: an unknown name with two lower bounds populated is answered
  with \<^verbatim>\<open>None\<close>, not with \<^verbatim>\<open>KeyError\<close>.
\<close>

theorem unknown_range_counterexample:
  "PStr ''colour'' \<notin> set (map fst dp_range_types)
   \<and> dp_constraint [PStr ''colour'', PInt 1, PInt 2, PNone, PNone, PNone]
       = ([Warning ''unexpected dp range'', Warning ''unexpected dp range restriction''],
          Inr None)"
  by code_simp

section \<open>Properties of the axiom builder\<close>








text \<open>
  The one save of \<^verbatim>\<open>add_axioms\<close>: no tuple writes the file; a batch that raises is not
  saved, any other batch is saved once, after its last tuple.
\<close>

lemma resolve_class_file:
  assumes "resolve_class axiom my_class ed = (e, mc, ed')"
  shows "saves ed' = saves ed \<and> persisted ed' = persisted ed"
  using assms
  by (auto simp: resolve_class_def log_warning_def
           split: if_splits sum.splits option.splits prod.splits)

lemma add_axiom_file:
  assumes "add_axiom conv axiom my_class ed = (e, mc, ed')"
  shows "saves ed' = saves ed \<and> persisted ed' = persisted ed"
proof -
  obtain e1 mc1 ed1 where r: "resolve_class axiom my_class ed = (e1, mc1, ed1)"
    by (cases "resolve_class axiom my_class ed") auto
  from resolve_class_file [OF r] have "saves ed1 = saves ed" "persisted ed1 = persisted ed"
    by simp_all
  with assms r show ?thesis
    by (cases e1)
       (auto simp: add_axiom_def Let_def log_warning_def
             split: if_splits option.splits sum.splits)
qed

lemma add_axioms_loop_file:
  assumes "add_axioms_loop conv axiom_tuples my_class ed = (e, ed')"
  shows "saves ed' = saves ed \<and> persisted ed' = persisted ed"
  using assms
proof (induction axiom_tuples arbitrary: my_class ed)
  case Nil
  then show ?case by simp
next
  case (Cons axiom rest)
  obtain e1 mc1 ed1 where s: "add_axiom conv axiom my_class ed = (e1, mc1, ed1)"
    by (cases "add_axiom conv axiom my_class ed") auto
  from add_axiom_file [OF s] have f: "saves ed1 = saves ed" "persisted ed1 = persisted ed"
    by simp_all
  show ?case
  proof (cases e1)
    case None
    with Cons.prems s have "add_axioms_loop conv rest mc1 ed1 = (e, ed')"
      by simp
    from Cons.IH [OF this] f show ?thesis
      by simp
  next
    case (Some err)
    with Cons.prems s f show ?thesis
      by auto
  qed
qed

lemma add_axioms_saved_once:
  "saves (snd (add_axioms conv axiom_tuples ed))
     = saves ed + (if fst (add_axioms conv axiom_tuples ed) = None then 1 else 0)"
proof -
  obtain e ed' where l: "add_axioms_loop conv axiom_tuples None ed = (e, ed')"
    by (cases "add_axioms_loop conv axiom_tuples None ed") auto
  from add_axioms_loop_file [OF l] l show ?thesis
    by (cases e) (simp_all add: add_axioms_def save_def)
qed

text \<open>
  C1. A tuple that names no class and asks for a restriction is logged and then not
  skipped. First in the batch, it reads \<^verbatim>\<open>my_class\<close> unbound: the exception ends the
  loop, the tuple after it is not processed and nothing is saved. After a tuple that
  declared a class, its restriction is added to that class.
\<close>

theorem no_class_not_skipped:
  "fst (add_axioms conv [no_class_spec, bar_spec] (new_editor foo_onto))
     = Some UnboundLocalError
   \<and> logged (snd (add_axioms conv [no_class_spec, bar_spec] (new_editor foo_onto)))
     = [Warning ''no class defined'']
   \<and> saves (snd (add_axioms conv [no_class_spec, bar_spec] (new_editor foo_onto))) = 0
   \<and> declared (onto (snd (add_axioms conv [no_class_spec, bar_spec] (new_editor foo_onto))))
     = declared foo_onto
   \<and> fst (add_axioms conv [bar_spec, no_class_spec] (new_editor foo_onto)) = None
   \<and> is_a (onto (snd (add_axioms conv [bar_spec, no_class_spec] (new_editor foo_onto)))) ''Bar''
     = [ClassRef Thing,
        Restriction (Prop (Named ''hasPart'')) ''some'' None (Some (FEntity (Named ''Foo'')))]"
  by (simp add: add_axioms_def add_axiom_def resolve_class_def no_class_spec_def bar_spec_def
        blank_def new_editor_def log_warning_def new_class_def foo_onto_def empty_onto_def Let_def
        add_restr_to_def_def dpinfo_of_def onto_item_def onto_get_def build_restriction_def
        save_def)

end
